theory Spec2Isabelle
  imports Main "HOL-Library.AList" "HOL-Library.Multiset"
begin

section \<open>The quiz runner of \<open>src/main.js\<close>\<close>

text \<open>
  The script keeps one module-level \<open>state\<close> object and a table \<open>dom\<close> of page elements, and
  reacts to clicks and to two timers. The model below keeps the fields of \<open>state\<close> that the quiz
  logic reads or writes, the parts of the page the handlers depend on (which screens are hidden,
  which buttons exist and what their closures captured), the pending \<open>setTimeout\<close> callbacks, the
  clock read by \<open>Date.now()\<close> and the outcomes of \<open>Math.random()\<close>. The drawing canvas
  (\<open>state.drawing\<close>, \<open>setupCanvas\<close>, \<open>clearCanvas\<close>), formula rendering (\<open>renderMath\<close>), the
  figure image and the CSS classes that \<open>updateProgressBar\<close> puts on the progress items do not
  feed back into the quiz logic and are left out.
\<close>

subsection \<open>Questions and answer records\<close>

text \<open>A property key of the \<open>state.answers\<close> object: the question's \<open>id\<close> as a string.\<close>

type_synonym key = string

text \<open>One entry of \<open>questions.json\<close>, with the fields the script reads.\<close>

record question =
  qid :: key
  prompt :: string
  choices :: "string list"
  correctIndex :: int
  figure :: "string option"
  answerLatex :: "string option"
  point :: "string option"

datatype quiz_mode = Practice | Test

text \<open>
  The three tag buttons of the review list, in the order of the array literal in \<open>showResults\<close>
  (its labels are Japanese for "set-up mistake", "calculation mistake" and "misread").
\<close>

datatype tag = SetupError | CalculationError | Misread

text \<open>
  The object literal written by \<open>handleChoice\<close>. It has no \<open>errorTag\<close> property; the tag buttons
  later assign a tag or \<open>null\<close>. The script tests the property only with \<open>=== tag\<close> and for
  truthiness, which do not tell a missing property from \<open>null\<close>, so both are \<open>None\<close>.
\<close>

record answer =
  isCorrect :: bool
  selectedIndex :: int
  timestamp :: nat
  errorTag :: "tag option"

datatype js_error = TypeError

subsection \<open>Timers and page elements\<close>

text \<open>
  The two callbacks the script hands to \<open>setTimeout\<close>: the one in \<open>showFeedbackOverlay\<close>
  (500 ms), whose closure holds the overlay and, through \<open>callback\<close>, the question \<open>q\<close> of
  \<open>handleChoice\<close>; and \<open>() => nextQuestion()\<close> (200 ms).
\<close>

datatype task = OverlayTimeout bool question | Advance

text \<open>
  One \<open>review-item\<close> built by \<open>showResults\<close>: the position and question it shows, the value of
  \<open>ans\<close> its tag buttons captured (a reference to an answer record, or \<open>undefined\<close>), the value
  of \<open>isCorrect\<close> at that moment (the tag buttons exist only when it is false), and which tag
  button carries the class \<open>selected\<close>.
\<close>

record review_item =
  r_index :: nat
  r_question :: question
  r_ans :: "nat option"
  r_isCorrect :: bool
  r_selected :: "tag option"

text \<open>
  The whole state. \<open>answers\<close> is the property table of the object \<open>state.answers\<close>, from key
  to the reference of an answer record; \<open>heap\<close> holds the answer records ever created, a
  reference being the position in it. The object is the literal \<open>{}\<close>, so an assignment under
  the key \<open>__proto__\<close> creates no property of its own: it makes the record the prototype of
  the object, and a read of that key returns the prototype. The entry of \<open>answers\<close> under
  \<open>__proto__\<close>, when there is one, is that prototype. \<open>timers\<close> are the pending timeouts with their due times,
  in the order they were set. \<open>rand\<close> is the tape of coming \<open>Math.random()\<close> outcomes.
  \<open>state.questions\<close> is assigned only by \<open>loadQuestions\<close>, before any handler is installed, and
  the progress items are created only by \<open>renderProgressBar\<close>, one per question: so the progress
  bar is described by \<open>progressRendered\<close> alone.
\<close>

record state =
  questions :: "question list"
  currentQuestionIndex :: int
  answers :: "(key \<times> nat) list"
  mode :: quiz_mode
  heap :: "answer list"
  clock :: nat
  timers :: "(nat \<times> task) list"
  rand :: "nat list"
  startScreenHidden :: bool
  resultsScreenHidden :: bool
  modeDisplay :: string
  shownQuestion :: "question option"
  choiceButtons :: "nat list"
  feedbackHidden :: bool
  explained :: "question option"
  progressRendered :: bool
  overlays :: "bool list"
  alerts :: nat
  scoreDisplay :: "(nat \<times> nat) option"
  reviewList :: "review_item list"

subsection \<open>Reading arrays, objects and the heap\<close>

text \<open>\<open>xs[i]\<close> in JavaScript: \<open>undefined\<close> outside the array.\<close>

definition nth_opt :: "'a list \<Rightarrow> int \<Rightarrow> 'a option" where
  "nth_opt xs i = (if 0 \<le> i \<and> i < int (length xs) then Some (xs ! nat i) else None)"

definition deref :: "answer list \<Rightarrow> nat \<Rightarrow> answer option" where
  "deref h r = (if r < length h then Some (h ! r) else None)"

text \<open>
  The members every object literal inherits from \<open>Object.prototype\<close>. A read of
  \<open>state.answers[k]\<close> for one of these keys, when nothing was assigned under \<open>k\<close>, gives the
  inherited member (a function, or the prototype itself for \<open>__proto__\<close>) and not \<open>undefined\<close>.
\<close>

definition objectPrototypeKeys :: "key list" where
  "objectPrototypeKeys =
     [''constructor'', ''hasOwnProperty'', ''isPrototypeOf'', ''propertyIsEnumerable'',
      ''toLocaleString'', ''toString'', ''valueOf'', ''__proto__'', ''__defineGetter__'',
      ''__defineSetter__'', ''__lookupGetter__'', ''__lookupSetter__'']"

text \<open>
  The answer record a read of \<open>state.answers[k]\<close> gives once \<open>handleChoice\<close> has assigned one
  under \<open>k\<close>, the key \<open>__proto__\<close> included. Where nothing was assigned the value is \<open>None\<close>:
  that is the script's \<open>undefined\<close> for every key that is not inherited, and stands for a value
  that is no answer record for a key of \<open>objectPrototypeKeys\<close>. The reads of
  \<open>state.answers[q.id]\<close> in \<open>renderQuestion\<close> and \<open>showResults\<close> are modelled the same way.
\<close>

definition answerOf :: "state \<Rightarrow> key \<Rightarrow> answer option" where
  "answerOf s k = (case map_of (answers s) k of None \<Rightarrow> None | Some r \<Rightarrow> deref (heap s) r)"

text \<open>
  \<open>Object.values(state.answers)\<close>: the records of the object's own properties, so not the one
  that an assignment under \<open>__proto__\<close> made the prototype. Every reference in the table was
  allocated.
\<close>

definition objectValues :: "state \<Rightarrow> answer list" where
  "objectValues s =
     List.map_filter (deref (heap s))
       (map snd (filter (\<lambda>kr. fst kr \<noteq> ''__proto__'') (answers s)))"

subsection \<open>Shuffling the choices\<close>

text \<open>
  One call of \<open>Math.random()\<close> takes the next entry of the tape (0 when the tape is used up);
  \<open>Math.floor(Math.random() * (i + 1))\<close>, a number from 0 to \<open>i\<close>, is the entry modulo \<open>i + 1\<close>.
\<close>

definition next_random :: "nat list \<Rightarrow> nat \<times> nat list" where
  "next_random rs = (case rs of [] \<Rightarrow> (0, []) | r # rs' \<Rightarrow> (r, rs'))"

text \<open>The loop \<open>for (let i = indices.length - 1; i > 0; i--)\<close>, entered with \<open>i\<close>.\<close>

fun shuffle_loop :: "nat \<Rightarrow> nat list \<Rightarrow> nat list \<Rightarrow> nat list \<times> nat list" where
  "shuffle_loop 0 indices rs = (indices, rs)"
| "shuffle_loop (Suc k) indices rs =
     (let (r, rs') = next_random rs;
          j = r mod (Suc k + 1)
      in shuffle_loop k (indices[Suc k := indices ! j, j := indices ! Suc k]) rs')"

definition shuffled_indices :: "question \<Rightarrow> nat list \<Rightarrow> nat list \<times> nat list" where
  "shuffled_indices q rs =
     shuffle_loop (length (choices q) - 1) [0..<length (choices q)] rs"

subsection \<open>The functions of the script\<close>

definition renderExplanation :: "question \<Rightarrow> state \<Rightarrow> state" where
  "renderExplanation q s = s\<lparr>explained := Some q\<rparr>"

definition renderQuestion :: "state \<Rightarrow> state" where
  "renderQuestion s =
     (case nth_opt (questions s) (currentQuestionIndex s) of
        None \<Rightarrow> s
      | Some q \<Rightarrow>
          (let (indices, rs) = shuffled_indices q (rand s);
               s1 = s\<lparr>shownQuestion := Some q, choiceButtons := indices, rand := rs,
                      feedbackHidden := True\<rparr>
           in if mode s1 = Practice \<and> map_of (answers s1) (qid q) \<noteq> None
              then (renderExplanation q s1)\<lparr>feedbackHidden := False\<rparr>
              else s1))"

definition renderProgressBar :: "state \<Rightarrow> state" where
  "renderProgressBar s = s\<lparr>progressRendered := True\<rparr>"

definition startGame :: "quiz_mode \<Rightarrow> state \<Rightarrow> state" where
  "startGame m s =
     renderProgressBar (renderQuestion
       (s\<lparr>mode := m, currentQuestionIndex := 0, answers := [],
          startScreenHidden := True, resultsScreenHidden := True,
          modeDisplay := (if m = Practice then ''Practice Mode'' else ''Test Mode'')\<rparr>))"

definition setTimeout :: "task \<Rightarrow> nat \<Rightarrow> state \<Rightarrow> state" where
  "setTimeout t d s = s\<lparr>timers := timers s @ [(clock s + d, t)]\<rparr>"

definition showFeedbackOverlay :: "bool \<Rightarrow> question \<Rightarrow> state \<Rightarrow> state" where
  "showFeedbackOverlay ok q s =
     setTimeout (OverlayTimeout ok q) 500 (s\<lparr>overlays := overlays s @ [ok]\<rparr>)"

text \<open>What one \<open>review-item\<close> of \<open>showResults\<close> shows and captures.\<close>

definition review_item_of :: "state \<Rightarrow> nat \<times> question \<Rightarrow> review_item" where
  "review_item_of s iq =
     (let ans = map_of (answers s) (qid (snd iq));
          obj = (case ans of None \<Rightarrow> None | Some r \<Rightarrow> deref (heap s) r);
          ok = (case obj of None \<Rightarrow> False | Some a \<Rightarrow> isCorrect a)
      in \<lparr>r_index = fst iq, r_question = snd iq, r_ans = ans, r_isCorrect = ok,
          r_selected = (if ok then None else case obj of None \<Rightarrow> None | Some a \<Rightarrow> errorTag a)\<rparr>)"

definition showResults :: "state \<Rightarrow> state" where
  "showResults s =
     (let total = length (questions s);
          correctCount = length (filter isCorrect (objectValues s))
      in s\<lparr>resultsScreenHidden := False,
           scoreDisplay := Some (correctCount, total),
           reviewList := map (review_item_of s) (enumerate 0 (questions s))\<rparr>)"

definition finishGame :: "state \<Rightarrow> state" where
  "finishGame s =
     (if mode s = Test then showResults s
      else s\<lparr>alerts := alerts s + 1, startScreenHidden := False\<rparr>)"

definition nextQuestion :: "state \<Rightarrow> state" where
  "nextQuestion s =
     (if currentQuestionIndex s < int (length (questions s)) - 1
      then renderQuestion (s\<lparr>currentQuestionIndex := currentQuestionIndex s + 1\<rparr>)
      else finishGame s)"

text \<open>
  \<open>handleChoice(selectedIndex, btnElement, isConfirmed)\<close>; the button argument is not used by
  the body. Reading \<open>q.correctIndex\<close> with \<open>q\<close> undefined throws before anything is written.
\<close>

definition handleChoice :: "int \<Rightarrow> bool \<Rightarrow> state \<Rightarrow> js_error + state" where
  "handleChoice selected isConfirmed s =
     (if \<not> isConfirmed then Inr s
      else case nth_opt (questions s) (currentQuestionIndex s) of
        None \<Rightarrow> Inl TypeError
      | Some q \<Rightarrow>
          (let ok = (selected = correctIndex q);
               s1 = s\<lparr>heap := heap s @ [\<lparr>isCorrect = ok, selectedIndex = selected,
                                         timestamp = clock s, errorTag = None\<rparr>],
                      answers := AList.update (qid q) (length (heap s)) (answers s)\<rparr>
           in Inr (if mode s1 = Practice then showFeedbackOverlay ok q s1
                   else nextQuestion s1)))"

text \<open>The \<open>onclick\<close> of the progress item made for index \<open>idx\<close>.\<close>

definition progressItem_onclick :: "nat \<Rightarrow> state \<Rightarrow> state" where
  "progressItem_onclick idx s =
     (if mode s = Practice
      then renderQuestion (s\<lparr>currentQuestionIndex := int idx\<rparr>)
      else if int idx = currentQuestionIndex s - 1
      then renderQuestion (s\<lparr>currentQuestionIndex := int idx\<rparr>)
      else s)"

text \<open>
  The \<open>onclick\<close> of the tag button \<open>t\<close> of review item \<open>i\<close>. It toggles the tag of the
  record its closure captured, then moves the class \<open>selected\<close>.
\<close>

definition tagBtn_onclick :: "nat \<Rightarrow> tag \<Rightarrow> state \<Rightarrow> state" where
  "tagBtn_onclick i t s =
     (let item = reviewList s ! i
      in case r_ans item of
           None \<Rightarrow> s\<lparr>reviewList := (reviewList s)[i := item\<lparr>r_selected := None\<rparr>]\<rparr>
         | Some r \<Rightarrow>
             (case deref (heap s) r of
                None \<Rightarrow> s
              | Some a \<Rightarrow>
                  (let a' = a\<lparr>errorTag := (if errorTag a = Some t then None else Some t)\<rparr>
                   in s\<lparr>heap := (heap s)[r := a'],
                        reviewList := (reviewList s)[i := item\<lparr>r_selected := errorTag a'\<rparr>]\<rparr>)))"

definition btnRestart_onclick :: "state \<Rightarrow> state" where
  "btnRestart_onclick s = s\<lparr>resultsScreenHidden := True, startScreenHidden := False\<rparr>"

subsection \<open>Events\<close>

text \<open>
  What a timer does when it fires: the overlay's timeout removes the overlay and runs the
  callback of \<open>handleChoice\<close>; the second timeout calls \<open>nextQuestion\<close>.
\<close>

fun run_task :: "task \<Rightarrow> state \<Rightarrow> state" where
  "run_task (OverlayTimeout ok q) s =
     setTimeout Advance 200
       ((renderExplanation q (s\<lparr>overlays := remove1 ok (overlays s)\<rparr>))\<lparr>feedbackHidden := False\<rparr>)"
| "run_task Advance s = nextQuestion s"

text \<open>The pending timer with the least due time, the one set first among equals.\<close>

fun earliest :: "(nat \<times> task) list \<Rightarrow> (nat \<times> task) option" where
  "earliest [] = None"
| "earliest (x # xs) =
     (case earliest xs of
        None \<Rightarrow> Some x
      | Some y \<Rightarrow> if fst y < fst x then Some y else Some x)"

definition due_timer :: "state \<Rightarrow> (nat \<times> task) option" where
  "due_timer s =
     (case earliest (timers s) of
        None \<Rightarrow> None
      | Some dt \<Rightarrow> if fst dt \<le> clock s then Some dt else None)"

text \<open>
  The events of the page. A click is on an element that exists: choice button number \<open>p\<close> of
  the choices area, the progress item of index \<open>idx\<close>, tag button \<open>t\<close> of review item \<open>i\<close>.
  \<open>Elapse\<close> lets time pass; \<open>TimerFires\<close> runs the first due timer (a timeout never fires
  before its delay, and may fire later). An exception thrown by a handler ends the handler.
\<close>

datatype event =
    ClickPractice
  | ClickTest
  | ClickRestart
  | ClickChoice nat
  | DblClickChoice nat
  | ClickProgress nat
  | ClickTag nat tag
  | Elapse nat
  | TimerFires

definition uncaught :: "state \<Rightarrow> js_error + state \<Rightarrow> state" where
  "uncaught s r = (case r of Inl e \<Rightarrow> s | Inr s' \<Rightarrow> s')"

fun step :: "event \<Rightarrow> state \<Rightarrow> state" where
  "step ClickPractice s = startGame Practice s"
| "step ClickTest s = startGame Test s"
| "step ClickRestart s = btnRestart_onclick s"
| "step (ClickChoice p) s =
     (if p < length (choiceButtons s)
      then uncaught s (handleChoice (int (choiceButtons s ! p)) False s) else s)"
| "step (DblClickChoice p) s =
     (if p < length (choiceButtons s)
      then uncaught s (handleChoice (int (choiceButtons s ! p)) True s) else s)"
| "step (ClickProgress idx) s =
     (if progressRendered s \<and> idx < length (questions s)
      then progressItem_onclick idx s else s)"
| "step (ClickTag i t) s =
     (if i < length (reviewList s) \<and> \<not> r_isCorrect (reviewList s ! i)
      then tagBtn_onclick i t s else s)"
| "step (Elapse d) s = s\<lparr>clock := clock s + d\<rparr>"
| "step TimerFires s =
     (case due_timer s of
        None \<Rightarrow> s
      | Some dt \<Rightarrow> run_task (snd dt) (s\<lparr>timers := remove1 dt (timers s)\<rparr>))"

fun run :: "event list \<Rightarrow> state \<Rightarrow> state" where
  "run [] s = s"
| "run (e # es) s = run es (step e s)"

text \<open>
  The page after \<open>init\<close>: the literal \<open>state\<close> with the loaded questions, the start screen
  showing, nothing rendered yet and no timer set.
\<close>

definition page_loaded :: "question list \<Rightarrow> nat list \<Rightarrow> state" where
  "page_loaded qs rs =
     \<lparr>questions = qs, currentQuestionIndex = 0, answers = [], mode = Practice,
      heap = [], clock = 0, timers = [], rand = rs,
      startScreenHidden = False, resultsScreenHidden = True, modeDisplay = [],
      shownQuestion = None, choiceButtons = [], feedbackHidden = True, explained = None,
      progressRendered = False, overlays = [], alerts = 0, scoreDisplay = None,
      reviewList = []\<rparr>"

text \<open>The quiz view is what the user works in: neither the start nor the results screen is up.\<close>

definition inProgress :: "state \<Rightarrow> bool" where
  "inProgress s \<longleftrightarrow> startScreenHidden s \<and> resultsScreenHidden s"

subsection \<open>Example inputs\<close>

text \<open>A three-question set, and states of a quiz on it, used to run the script on.\<close>

definition qA :: question where
  "qA = \<lparr>qid = ''a'', prompt = ''A'', choices = [''x'', ''y'', ''z''], correctIndex = 1,
         figure = None, answerLatex = None, point = None\<rparr>"

definition qB :: question where
  "qB = \<lparr>qid = ''b'', prompt = ''B'', choices = [''x'', ''y''], correctIndex = 0,
         figure = None, answerLatex = None, point = None\<rparr>"

definition qC :: question where
  "qC = \<lparr>qid = ''c'', prompt = ''C'', choices = [''x'', ''y''], correctIndex = 0,
         figure = None, answerLatex = None, point = None\<rparr>"

definition example_quiz :: state where
  "example_quiz = page_loaded [qA, qB, qC] [2, 0]"

text \<open>A test just started: question \<open>qA\<close> is shown, its buttons in the order 1, 0, 2.\<close>

definition example_test :: state where
  "example_test = startGame Test example_quiz"

text \<open>A test after one confirmed choice: the second question is current.\<close>

definition example_second :: state where
  "example_second = run [ClickTest, DblClickChoice 0] example_quiz"

text \<open>
  Practice, 100 ms after the correct choice of \<open>qA\<close> was confirmed: the overlay is showing
  and its timeout is pending.
\<close>

definition example_pending :: state where
  "example_pending = run [ClickPractice, DblClickChoice 0, Elapse 100] example_quiz"



text \<open>A page whose question set is empty (also what a failed \<open>loadQuestions\<close> leaves).\<close>

definition example_empty :: state where
  "example_empty = page_loaded [] []"

text \<open>
  A question set of one question whose id is \<open>__proto__\<close>, and the finished test on it in
  which the right choice (index 0, the second button) was confirmed.
\<close>

definition qP :: question where
  "qP = \<lparr>qid = ''__proto__'', prompt = ''P'', choices = [''x'', ''y''], correctIndex = 0,
         figure = None, answerLatex = None, point = None\<rparr>"

definition example_proto :: state where
  "example_proto = run [ClickTest, DblClickChoice 1] (page_loaded [qP] [])"

section \<open>What the functions leave alone\<close>

lemma renderQuestion_keeps:
  "questions (renderQuestion s) = questions s"
  "currentQuestionIndex (renderQuestion s) = currentQuestionIndex s"
  "answers (renderQuestion s) = answers s"
  "heap (renderQuestion s) = heap s"
  "mode (renderQuestion s) = mode s"
  "timers (renderQuestion s) = timers s"
  "clock (renderQuestion s) = clock s"
  "startScreenHidden (renderQuestion s) = startScreenHidden s"
  "resultsScreenHidden (renderQuestion s) = resultsScreenHidden s"
  by (simp_all add: renderQuestion_def renderExplanation_def Let_def
      split: option.splits prod.splits)

lemma showResults_keeps:
  "questions (showResults s) = questions s"
  "currentQuestionIndex (showResults s) = currentQuestionIndex s"
  "answers (showResults s) = answers s"
  "heap (showResults s) = heap s"
  "mode (showResults s) = mode s"
  "timers (showResults s) = timers s"
  "clock (showResults s) = clock s"
  by (simp_all add: showResults_def Let_def)

lemma finishGame_keeps:
  "questions (finishGame s) = questions s"
  "currentQuestionIndex (finishGame s) = currentQuestionIndex s"
  "answers (finishGame s) = answers s"
  "heap (finishGame s) = heap s"
  "mode (finishGame s) = mode s"
  "timers (finishGame s) = timers s"
  "clock (finishGame s) = clock s"
  by (simp_all add: finishGame_def showResults_keeps)

lemma nextQuestion_keeps:
  "questions (nextQuestion s) = questions s"
  "answers (nextQuestion s) = answers s"
  "heap (nextQuestion s) = heap s"
  "mode (nextQuestion s) = mode s"
  "timers (nextQuestion s) = timers s"
  "clock (nextQuestion s) = clock s"
  by (simp_all add: nextQuestion_def finishGame_keeps renderQuestion_keeps)

lemma startGame_keeps:
  "questions (startGame m s) = questions s"
  "currentQuestionIndex (startGame m s) = 0"
  "answers (startGame m s) = []"
  "heap (startGame m s) = heap s"
  "mode (startGame m s) = m"
  "timers (startGame m s) = timers s"
  "clock (startGame m s) = clock s"
  "startScreenHidden (startGame m s)"
  "resultsScreenHidden (startGame m s)"
  "progressRendered (startGame m s)"
  by (simp_all add: startGame_def renderProgressBar_def renderQuestion_keeps)

lemma tagBtn_onclick_keeps:
  "questions (tagBtn_onclick i t s) = questions s"
  "currentQuestionIndex (tagBtn_onclick i t s) = currentQuestionIndex s"
  "answers (tagBtn_onclick i t s) = answers s"
  "mode (tagBtn_onclick i t s) = mode s"
  "timers (tagBtn_onclick i t s) = timers s"
  by (simp_all add: tagBtn_onclick_def Let_def split: option.splits)

lemma handleChoice_keeps_questions:
  "handleChoice selected c s = Inr s' \<Longrightarrow> questions s' = questions s"
  by (auto simp: handleChoice_def Let_def showFeedbackOverlay_def setTimeout_def
      nextQuestion_keeps split: if_splits option.splits)

lemma run_task_keeps_questions: "questions (run_task t s) = questions s"
  by (cases t) (simp_all add: setTimeout_def renderExplanation_def nextQuestion_keeps)

lemma run_task_keeps_answers: "answers (run_task t s) = answers s"
  by (cases t) (simp_all add: setTimeout_def renderExplanation_def nextQuestion_keeps)

lemma step_keeps_questions: "questions (step e s) = questions s"
proof (cases e)
  case (ClickChoice p)
  then show ?thesis
    by (auto simp: uncaught_def handleChoice_keeps_questions split: sum.splits)
next
  case (DblClickChoice p)
  then show ?thesis
    by (auto simp: uncaught_def handleChoice_keeps_questions split: sum.splits)
next
  case (ClickProgress idx)
  then show ?thesis by (simp add: progressItem_onclick_def renderQuestion_keeps)
next
  case TimerFires
  then show ?thesis by (simp add: run_task_keeps_questions split: option.splits)
qed (simp_all add: startGame_keeps btnRestart_onclick_def tagBtn_onclick_keeps)

section \<open>A confirmed choice\<close>

lemma deref_append_new: "deref (h @ [a]) (length h) = Some a"
  by (simp add: deref_def)

text \<open>What a confirmed choice writes when the current question exists.\<close>

lemma handleChoice_confirmed:
  assumes "nth_opt (questions s) (currentQuestionIndex s) = Some q"
  shows "\<exists>s'. handleChoice selected True s = Inr s'
     \<and> answers s' = AList.update (qid q) (length (heap s)) (answers s)
     \<and> heap s' = heap s @ [\<lparr>isCorrect = (selected = correctIndex q), selectedIndex = selected,
                              timestamp = clock s, errorTag = None\<rparr>]
     \<and> questions s' = questions s \<and> mode s' = mode s \<and> clock s' = clock s"
  using assms
  by (simp add: handleChoice_def Let_def showFeedbackOverlay_def setTimeout_def nextQuestion_keeps)

lemma step_DblClickChoice:
  assumes "nth_opt (questions s) (currentQuestionIndex s) = Some q" "p < length (choiceButtons s)"
  shows "answers (step (DblClickChoice p) s)
       = AList.update (qid q) (length (heap s)) (answers s)
     \<and> heap (step (DblClickChoice p) s)
       = heap s @ [\<lparr>isCorrect = (int (choiceButtons s ! p) = correctIndex q),
            selectedIndex = int (choiceButtons s ! p), timestamp = clock s, errorTag = None\<rparr>]"
proof -
  from handleChoice_confirmed [OF assms(1), of "int (choiceButtons s ! p)"]
  obtain s' where "handleChoice (int (choiceButtons s ! p)) True s = Inr s'"
    "answers s' = AList.update (qid q) (length (heap s)) (answers s)"
    "heap s' = heap s @ [\<lparr>isCorrect = (int (choiceButtons s ! p) = correctIndex q),
            selectedIndex = int (choiceButtons s ! p), timestamp = clock s, errorTag = None\<rparr>]"
    by blast
  with assms(2) show ?thesis by (simp add: uncaught_def)
qed

section \<open>The index of the current question\<close>

lemma nextQuestion_index:
  assumes "0 \<le> currentQuestionIndex s" "currentQuestionIndex s < int (length (questions s))"
  shows "0 \<le> currentQuestionIndex (nextQuestion s)
     \<and> currentQuestionIndex (nextQuestion s) < int (length (questions s))"
  using assms by (simp add: nextQuestion_def renderQuestion_keeps finishGame_keeps)

lemma handleChoice_index:
  assumes "handleChoice selected c s = Inr s'"
    and "0 \<le> currentQuestionIndex s" "currentQuestionIndex s < int (length (questions s))"
  shows "0 \<le> currentQuestionIndex s' \<and> currentQuestionIndex s' < int (length (questions s))"
proof (cases c)
  case False
  with assms show ?thesis by (simp add: handleChoice_def)
next
  case True
  from assms(2,3) obtain q where q: "nth_opt (questions s) (currentQuestionIndex s) = Some q"
    by (simp add: nth_opt_def)
  let ?s1 = "s\<lparr>heap := heap s @ [\<lparr>isCorrect = (selected = correctIndex q),
      selectedIndex = selected, timestamp = clock s, errorTag = None\<rparr>],
      answers := AList.update (qid q) (length (heap s)) (answers s)\<rparr>"
  show ?thesis
  proof (cases "mode s")
    case Practice
    with True q assms(1) have "currentQuestionIndex s' = currentQuestionIndex s"
      by (auto simp: handleChoice_def Let_def showFeedbackOverlay_def setTimeout_def)
    with assms show ?thesis by simp
  next
    case Test
    with True q assms(1) have "s' = nextQuestion ?s1"
      by (auto simp: handleChoice_def Let_def)
    with nextQuestion_index [of ?s1] assms(2,3) show ?thesis by simp
  qed
qed

lemma run_task_index:
  assumes "0 \<le> currentQuestionIndex s" "currentQuestionIndex s < int (length (questions s))"
  shows "0 \<le> currentQuestionIndex (run_task t s)
     \<and> currentQuestionIndex (run_task t s) < int (length (questions s))"
proof (cases t)
  case (OverlayTimeout ok q)
  with assms show ?thesis by (simp add: setTimeout_def renderExplanation_def)
next
  case Advance
  with nextQuestion_index [OF assms] show ?thesis by simp
qed

lemma step_index:
  assumes "0 \<le> currentQuestionIndex s" "currentQuestionIndex s < int (length (questions s))"
  shows "0 \<le> currentQuestionIndex (step e s)
     \<and> currentQuestionIndex (step e s) < int (length (questions s))"
proof (cases e)
  case ClickPractice
  with assms show ?thesis by (auto simp: startGame_keeps)
next
  case ClickTest
  with assms show ?thesis by (auto simp: startGame_keeps)
next
  case ClickRestart
  with assms show ?thesis by (simp add: btnRestart_onclick_def)
next
  case (ClickChoice p)
  with assms handleChoice_index [OF _ assms] show ?thesis
    by (auto simp: uncaught_def split: sum.splits)
next
  case (DblClickChoice p)
  with assms handleChoice_index [OF _ assms] show ?thesis
    by (auto simp: uncaught_def split: sum.splits)
next
  case (ClickProgress idx)
  with assms show ?thesis by (simp add: progressItem_onclick_def renderQuestion_keeps)
next
  case (ClickTag i t)
  with assms show ?thesis by (simp add: tagBtn_onclick_keeps)
next
  case (Elapse d)
  with assms show ?thesis by simp
next
  case TimerFires
  show ?thesis
  proof (cases "due_timer s")
    case None
    with TimerFires assms show ?thesis by simp
  next
    case (Some dt)
    with TimerFires run_task_index [of "s\<lparr>timers := remove1 dt (timers s)\<rparr>" "snd dt"] assms
    show ?thesis by simp
  qed
qed

lemma run_index:
  assumes "0 \<le> currentQuestionIndex s" "currentQuestionIndex s < int (length (questions s))"
  shows "questions (run evs s) = questions s \<and> 0 \<le> currentQuestionIndex (run evs s)
     \<and> currentQuestionIndex (run evs s) < int (length (questions s))"
  using assms
proof (induction evs arbitrary: s)
  case Nil
  then show ?case by simp
next
  case (Cons e evs)
  from step_index [OF Cons.prems, of e] step_keeps_questions [of e s]
  have "0 \<le> currentQuestionIndex (step e s)"
    "currentQuestionIndex (step e s) < int (length (questions (step e s)))"
    by simp_all
  from Cons.IH [OF this] step_keeps_questions [of e s] show ?case by simp
qed

section \<open>The keys of the answers object\<close>

lemma step_keeps_distinct:
  assumes "distinct (map fst (answers s))"
  shows "distinct (map fst (answers (step e s)))"
proof (cases e)
  case (ClickChoice p)
  with assms show ?thesis by (simp add: uncaught_def handleChoice_def)
next
  case (DblClickChoice p)
  show ?thesis
  proof (cases "nth_opt (questions s) (currentQuestionIndex s)")
    case None
    with DblClickChoice assms show ?thesis by (simp add: uncaught_def handleChoice_def)
  next
    case (Some q)
    from handleChoice_confirmed [OF Some, of "int (choiceButtons s ! p)"]
    obtain s' where "handleChoice (int (choiceButtons s ! p)) True s = Inr s'"
      "answers s' = AList.update (qid q) (length (heap s)) (answers s)"
      by blast
    with assms DblClickChoice show ?thesis
      by (simp add: uncaught_def distinct_update)
  qed
next
  case (ClickProgress idx)
  with assms show ?thesis by (simp add: progressItem_onclick_def renderQuestion_keeps)
next
  case TimerFires
  with assms show ?thesis by (simp add: run_task_keeps_answers split: option.splits)
qed (use assms in \<open>simp_all add: startGame_keeps btnRestart_onclick_def tagBtn_onclick_keeps\<close>)

lemma run_keeps_distinct:
  "distinct (map fst (answers s)) \<Longrightarrow> distinct (map fst (answers (run evs s)))"
  by (induction evs arbitrary: s) (simp_all add: step_keeps_distinct)

section \<open>Counting the correct records\<close>

lemma count_values_card:
  assumes "distinct (map fst al)"
  shows "length (filter P (List.map_filter f (map snd al)))
     = card {k. \<exists>r a. map_of al k = Some r \<and> f r = Some a \<and> P a}"
  using assms
proof (induction al)
  case Nil
  then show ?case by (simp add: map_filter_simps)
next
  case (Cons kr al)
  obtain k r where kr: "kr = (k, r)" by (cases kr)
  let ?S = "{k'. \<exists>r' a. map_of al k' = Some r' \<and> f r' = Some a \<and> P a}"
  from Cons.prems kr have notin: "k \<notin> fst ` set al" and d: "distinct (map fst al)"
    by simp_all
  from notin have none: "map_of al k = None"
    by (simp add: map_of_eq_None_iff)
  have fin: "finite ?S"
    by (rule finite_subset [of _ "dom (map_of al)"]) (auto simp: finite_dom_map_of)
  from none have kS: "k \<notin> ?S" by simp
  have split: "{k'. \<exists>r' a. map_of (kr # al) k' = Some r' \<and> f r' = Some a \<and> P a}
      = (if \<exists>a. f r = Some a \<and> P a then insert k ?S else ?S)"
    using none kr by auto
  from Cons.IH [OF d] fin kS show ?case
    by (simp only: split) (auto simp: kr map_filter_simps split: option.splits)
qed

lemma map_of_filter_key:
  "map_of (filter (\<lambda>kr. fst kr \<noteq> p) al) k = (if k = p then None else map_of al k)"
  by (induction al) auto

text \<open>The displayed count is the number of keys other than \<open>__proto__\<close> with a correct record.\<close>

lemma objectValues_card:
  assumes "distinct (map fst (answers s))"
  shows "length (filter isCorrect (objectValues s))
     = card {k. k \<noteq> ''__proto__'' \<and> (\<exists>a. answerOf s k = Some a \<and> isCorrect a)}"
proof -
  let ?al = "filter (\<lambda>kr. fst kr \<noteq> ''__proto__'') (answers s)"
  have d: "distinct (map fst ?al)"
    using assms by (simp add: distinct_map_filter)
  have "{k. k \<noteq> ''__proto__'' \<and> (\<exists>a. answerOf s k = Some a \<and> isCorrect a)}
      = {k. \<exists>r a. map_of ?al k = Some r \<and> deref (heap s) r = Some a \<and> isCorrect a}"
    by (auto simp: answerOf_def map_of_filter_key split: option.splits)
  with count_values_card [OF d, of isCorrect "deref (heap s)"] show ?thesis
    by (simp add: objectValues_def)
qed

lemma reviewList_showResults:
  "reviewList (showResults s) = map (review_item_of s) (enumerate 0 (questions s))"
  by (simp add: showResults_def Let_def)

text \<open>
  Away from the inherited keys the results are as the specification describes them: with no
  record made the prototype and no question id among \<open>objectPrototypeKeys\<close>, the score is the
  number of keys with a correct record out of the number of questions, and the review list
  has one item per question, in the order of the question set, with the question, with the
  record found under its id or \<open>undefined\<close>, and marked correct only when that record exists
  and is correct.
\<close>

lemma showResults_plain_keys:
  assumes "distinct (map fst (answers s))"
    and "map_of (answers s) ''__proto__'' = None"
    and "\<forall>q \<in> set (questions s). qid q \<notin> set objectPrototypeKeys"
  shows "scoreDisplay (showResults s)
      = Some (card {k. \<exists>a. answerOf s k = Some a \<and> isCorrect a}, length (questions s))
   \<and> map r_index (reviewList (showResults s)) = [0..<length (questions s)]
   \<and> map r_question (reviewList (showResults s)) = questions s
   \<and> map r_ans (reviewList (showResults s))
        = map (\<lambda>q. map_of (answers s) (qid q)) (questions s)
   \<and> map r_isCorrect (reviewList (showResults s))
        = map (\<lambda>q. case answerOf s (qid q) of None \<Rightarrow> False | Some a \<Rightarrow> isCorrect a)
            (questions s)"
proof -
  have "answerOf s ''__proto__'' = None"
    using assms(2) by (simp add: answerOf_def)
  then have "{k. k \<noteq> ''__proto__'' \<and> (\<exists>a. answerOf s k = Some a \<and> isCorrect a)}
      = {k. \<exists>a. answerOf s k = Some a \<and> isCorrect a}"
    by auto
  with objectValues_card [OF assms(1)]
  have 1: "scoreDisplay (showResults s)
      = Some (card {k. \<exists>a. answerOf s k = Some a \<and> isCorrect a}, length (questions s))"
    by (simp add: showResults_def Let_def)
  have i: "map (r_index \<circ> review_item_of s) (enumerate 0 (questions s))
      = map fst (enumerate 0 (questions s))"
    by (rule map_cong) (simp_all add: review_item_of_def Let_def)
  have q: "map (r_question \<circ> review_item_of s) (enumerate 0 (questions s))
      = map snd (enumerate 0 (questions s))"
    by (rule map_cong) (simp_all add: review_item_of_def Let_def)
  have a: "map (r_ans \<circ> review_item_of s) (enumerate 0 (questions s))
      = map ((\<lambda>q. map_of (answers s) (qid q)) \<circ> snd) (enumerate 0 (questions s))"
    by (rule map_cong) (simp_all add: review_item_of_def Let_def)
  have c: "map (r_isCorrect \<circ> review_item_of s) (enumerate 0 (questions s))
      = map ((\<lambda>q. case answerOf s (qid q) of None \<Rightarrow> False | Some a \<Rightarrow> isCorrect a) \<circ> snd)
          (enumerate 0 (questions s))"
    by (rule map_cong) (simp_all add: review_item_of_def answerOf_def Let_def split: option.splits)
  have 3: "map r_index (reviewList (showResults s)) = [0..<length (questions s)]"
    using i by (simp add: reviewList_showResults)
  have 4: "map r_question (reviewList (showResults s)) = questions s"
    using q by (simp add: reviewList_showResults)
  have 5: "map r_ans (reviewList (showResults s))
        = map (\<lambda>q. map_of (answers s) (qid q)) (questions s)"
    using a by (simp add: reviewList_showResults flip: map_map)
  have 6: "map r_isCorrect (reviewList (showResults s))
        = map (\<lambda>q. case answerOf s (qid q) of None \<Rightarrow> False | Some a \<Rightarrow> isCorrect a)
            (questions s)"
    using c by (simp add: reviewList_showResults flip: map_map)
  from 1 3 4 5 6 show ?thesis by blast
qed

section \<open>The tag buttons\<close>






section \<open>The shuffle\<close>

lemma shuffle_loop_mset:
  "k = 0 \<or> k < length xs \<Longrightarrow> mset (fst (shuffle_loop k xs rs)) = mset xs"
proof (induction k arbitrary: xs rs)
  case 0
  show ?case by simp
next
  case (Suc k)
  obtain r rs' where nr: "next_random rs = (r, rs')" by (cases "next_random rs")
  let ?j = "r mod (Suc k + 1)"
  let ?xs = "xs[Suc k := xs ! ?j, ?j := xs ! Suc k]"
  from Suc.prems have k: "Suc k < length xs" by simp
  have j: "?j < length xs" using k by (simp add: less_le_trans [OF mod_less_divisor])
  have "mset (fst (shuffle_loop k ?xs rs')) = mset ?xs"
    by (rule Suc.IH) (use k in simp)
  also have "mset ?xs = mset xs" by (rule mset_swap [OF j k])
  finally show ?case by (simp add: nr Let_def)
qed

lemma shuffled_indices_mset:
  "mset (fst (shuffled_indices q rs)) = mset [0..<length (choices q)]"
  unfolding shuffled_indices_def by (rule shuffle_loop_mset) auto

lemma renderQuestion_buttons:
  assumes "nth_opt (questions s) (currentQuestionIndex s) = Some q"
  shows "choiceButtons (renderQuestion s) = fst (shuffled_indices q (rand s))"
  using assms
  by (simp add: renderQuestion_def renderExplanation_def Let_def split: prod.splits)

section \<open>An empty question set\<close>

lemma nth_opt_Nil: "nth_opt [] i = None"
  by (auto simp: nth_opt_def)

lemma renderQuestion_empty: "questions s = [] \<Longrightarrow> renderQuestion s = s"
  by (simp add: renderQuestion_def nth_opt_Nil)

lemma run_task_empty_buttons:
  assumes "questions s = []"
  shows "shownQuestion (run_task t s) = shownQuestion s
     \<and> choiceButtons (run_task t s) = choiceButtons s"
  using assms
  by (cases t) (simp_all add: setTimeout_def renderExplanation_def nextQuestion_def
      finishGame_def showResults_def Let_def renderQuestion_empty)

lemma step_empty_buttons:
  assumes "questions s = []"
  shows "shownQuestion (step e s) = shownQuestion s \<and> choiceButtons (step e s) = choiceButtons s"
proof (cases e)
  case (ClickChoice p)
  with assms show ?thesis by (simp add: uncaught_def handleChoice_def)
next
  case (DblClickChoice p)
  with assms show ?thesis by (simp add: uncaught_def handleChoice_def nth_opt_Nil)
next
  case (ClickProgress idx)
  with assms show ?thesis by simp
next
  case (ClickTag i t)
  then show ?thesis by (simp add: tagBtn_onclick_def Let_def split: option.splits)
next
  case TimerFires
  from run_task_empty_buttons [of "s\<lparr>timers := remove1 dt (timers s)\<rparr>" "snd dt" for dt]
    TimerFires assms
  show ?thesis by (simp split: option.splits)
qed (use assms in \<open>simp_all add: startGame_def renderProgressBar_def renderQuestion_empty
      btnRestart_onclick_def\<close>)

lemma run_empty_buttons:
  "questions s = [] \<Longrightarrow>
     shownQuestion (run evs s) = shownQuestion s \<and> choiceButtons (run evs s) = choiceButtons s"
proof (induction evs arbitrary: s)
  case Nil
  show ?case by simp
next
  case (Cons e evs)
  from Cons.prems have "questions (step e s) = []" by (simp add: step_keeps_questions)
  from Cons.IH [OF this] step_empty_buttons [OF Cons.prems, of e] show ?case by simp
qed

section \<open>Timers\<close>

lemma run_task_OverlayTimeout_timers:
  "timers (run_task (OverlayTimeout ok q) s) = timers s @ [(clock s + 200, Advance)]"
  by (simp add: setTimeout_def renderExplanation_def)

section \<open>The claims of the specification\<close>

subsection \<open>C1: correctness of a submitted choice\<close>

text \<open>
  C1. Whenever the current question exists, a confirmed choice (\<open>handleChoice\<close> with
  \<open>isConfirmed\<close> true, the script's \<open>submitAnswer\<close>) returns normally and leaves under the
  question's id a record whose \<open>isCorrect\<close> is true if and only if the submitted index equals
  the question's \<open>correctIndex\<close>; so every other index yields false.
\<close>

theorem handleChoice_isCorrect:
  assumes "nth_opt (questions s) (currentQuestionIndex s) = Some q"
  shows "\<exists>s' a. handleChoice selected True s = Inr s' \<and> answerOf s' (qid q) = Some a
     \<and> (isCorrect a \<longleftrightarrow> selected = correctIndex q)"
proof -
  from handleChoice_confirmed [OF assms, of selected]
  obtain s' where s': "handleChoice selected True s = Inr s'"
    "answers s' = AList.update (qid q) (length (heap s)) (answers s)"
    "heap s' = heap s @ [\<lparr>isCorrect = (selected = correctIndex q), selectedIndex = selected,
                              timestamp = clock s, errorTag = None\<rparr>]"
    by blast
  have "answerOf s' (qid q) = Some \<lparr>isCorrect = (selected = correctIndex q),
      selectedIndex = selected, timestamp = clock s, errorTag = None\<rparr>"
    by (simp add: answerOf_def s' update_conv' deref_append_new)
  with s'(1) show ?thesis by simp
qed

theorem handleChoice_isCorrect_witness:
  "nth_opt (questions example_test) (currentQuestionIndex example_test) = Some qA
   \<and> (\<exists>s' a. handleChoice 1 True example_test = Inr s' \<and> answerOf s' (qid qA) = Some a
        \<and> (isCorrect a \<longleftrightarrow> (1::int) = correctIndex qA))"
proof -
  have h: "nth_opt (questions example_test) (currentQuestionIndex example_test) = Some qA"
    by code_simp
  from handleChoice_isCorrect [OF h, of 1] h show ?thesis by blast
qed

subsection \<open>C2: the current index stays in range\<close>

text \<open>
  C2. After \<open>startGame\<close> on a non-empty question set, whatever events follow (confirmed and
  unconfirmed choices, clicks on progress items, on the restart button, on the two start
  buttons and on tag buttons, time passing and timers firing), \<open>currentQuestionIndex\<close> is at
  least 0 and less than the number of questions.
\<close>

theorem currentQuestionIndex_in_range:
  assumes "questions s \<noteq> []"
  shows "0 \<le> currentQuestionIndex (run evs (startGame m s))
     \<and> currentQuestionIndex (run evs (startGame m s)) < int (length (questions s))"
  using run_index [of "startGame m s" evs] assms by (simp add: startGame_keeps)

theorem currentQuestionIndex_in_range_witness:
  "questions example_quiz \<noteq> []
   \<and> 0 \<le> currentQuestionIndex (run [DblClickChoice 0, ClickProgress 2, DblClickChoice 1,
          Elapse 700, TimerFires, TimerFires, TimerFires] (startGame Practice example_quiz))
   \<and> currentQuestionIndex (run [DblClickChoice 0, ClickProgress 2, DblClickChoice 1,
          Elapse 700, TimerFires, TimerFires, TimerFires] (startGame Practice example_quiz))
       < int (length (questions example_quiz))"
proof -
  have h: "questions example_quiz \<noteq> []"
    by (simp add: example_quiz_def page_loaded_def)
  from currentQuestionIndex_in_range [OF h] h show ?thesis by blast
qed

subsection \<open>C3: one record per question, overwritten on resubmission\<close>

text \<open>
  C3. A confirmed choice on an existing question leaves under the question's id exactly the
  record of this submission: its selected index, its correctness, the time of the submission
  and no error tag, whatever record and tag were there before. The keys of the answers object
  stay as they were when the id already had a record, and grow by this id alone otherwise.
  In every state the page can reach after loading, no key occurs twice.
\<close>

theorem handleChoice_overwrites:
  assumes "nth_opt (questions s) (currentQuestionIndex s) = Some q"
  shows "(\<exists>s'. handleChoice selected True s = Inr s'
       \<and> answerOf s' (qid q) = Some \<lparr>isCorrect = (selected = correctIndex q),
            selectedIndex = selected, timestamp = clock s, errorTag = None\<rparr>
       \<and> map fst (answers s') =
            (if qid q \<in> set (map fst (answers s)) then map fst (answers s)
             else map fst (answers s) @ [qid q]))
     \<and> distinct (map fst (answers (run evs (page_loaded qs rs))))"
proof -
  from handleChoice_confirmed [OF assms, of selected]
  obtain s' where s': "handleChoice selected True s = Inr s'"
    "answers s' = AList.update (qid q) (length (heap s)) (answers s)"
    "heap s' = heap s @ [\<lparr>isCorrect = (selected = correctIndex q), selectedIndex = selected,
                              timestamp = clock s, errorTag = None\<rparr>]"
    by blast
  have a: "answerOf s' (qid q) = Some \<lparr>isCorrect = (selected = correctIndex q),
      selectedIndex = selected, timestamp = clock s, errorTag = None\<rparr>"
    by (simp add: answerOf_def s' update_conv' deref_append_new)
  have k: "map fst (answers s') =
      (if qid q \<in> set (map fst (answers s)) then map fst (answers s)
       else map fst (answers s) @ [qid q])"
    by (simp only: s'(2) update_keys)
  have d: "distinct (map fst (answers (run evs (page_loaded qs rs))))"
    by (rule run_keeps_distinct) (simp add: page_loaded_def)
  from s'(1) a k d show ?thesis by blast
qed

theorem handleChoice_overwrites_witness:
  "nth_opt (questions example_pending) (currentQuestionIndex example_pending) = Some qA
   \<and> answerOf example_pending (qid qA)
       = Some \<lparr>isCorrect = True, selectedIndex = 1, timestamp = 0, errorTag = None\<rparr>
   \<and> (\<exists>s'. handleChoice 2 True example_pending = Inr s'
        \<and> answerOf s' (qid qA)
            = Some \<lparr>isCorrect = False, selectedIndex = 2, timestamp = 100, errorTag = None\<rparr>
        \<and> map fst (answers s') = map fst (answers example_pending))"
proof -
  have h: "nth_opt (questions example_pending) (currentQuestionIndex example_pending) = Some qA"
    by code_simp
  have k: "qid qA \<in> set (map fst (answers example_pending))"
    by code_simp
  have a: "answerOf example_pending (qid qA)
       = Some \<lparr>isCorrect = True, selectedIndex = 1, timestamp = 0, errorTag = None\<rparr>"
    by code_simp
  have c: "clock example_pending = 100" "correctIndex qA = 1"
    by code_simp+
  from handleChoice_overwrites [OF h, of 2] h k a c show ?thesis by auto
qed

subsection \<open>C4: navigation by the progress bar\<close>

text \<open>
  C4. A click on the progress item of index \<open>idx\<close>: in practice mode it makes \<open>idx\<close> the
  current index; in test mode it makes \<open>idx\<close> the current index when \<open>idx\<close> is the current
  index minus one, and otherwise changes nothing at all, so the jump is made exactly in that
  case. No click on a progress item, made or refused, touches the answers object or any of
  its records.
\<close>

theorem progressItem_onclick_navigation:
  "(mode s = Practice \<longrightarrow> currentQuestionIndex (progressItem_onclick idx s) = int idx)
   \<and> (mode s = Test \<and> int idx = currentQuestionIndex s - 1 \<longrightarrow>
        currentQuestionIndex (progressItem_onclick idx s) = int idx)
   \<and> (mode s = Test \<and> int idx \<noteq> currentQuestionIndex s - 1 \<longrightarrow>
        progressItem_onclick idx s = s)
   \<and> answers (progressItem_onclick idx s) = answers s
   \<and> heap (progressItem_onclick idx s) = heap s"
  by (simp add: progressItem_onclick_def renderQuestion_keeps)

theorem progressItem_onclick_navigation_witness:
  "mode (startGame Practice example_quiz) = Practice
   \<and> currentQuestionIndex (progressItem_onclick 2 (startGame Practice example_quiz)) = 2
   \<and> mode example_second = Test
   \<and> int 0 = currentQuestionIndex example_second - 1
   \<and> currentQuestionIndex (progressItem_onclick 0 example_second) = 0
   \<and> int 2 \<noteq> currentQuestionIndex example_second - 1
   \<and> progressItem_onclick 2 example_second = example_second"
proof -
  have p: "mode (startGame Practice example_quiz) = Practice"
    by (simp add: startGame_keeps)
  have t: "mode example_second = Test"
    by code_simp
  have c: "currentQuestionIndex example_second = 1"
    by code_simp
  from progressItem_onclick_navigation [of "startGame Practice example_quiz" 2]
    progressItem_onclick_navigation [of example_second 0]
    progressItem_onclick_navigation [of example_second 2]
    p t c
  show ?thesis by simp
qed

subsection \<open>C5: score and review list\<close>

text \<open>
  C5 says that the correct count of the results is the number of answer records that are
  correct, for every question set. \<open>showResults\<close> counts the records in
  \<open>Object.values(state.answers)\<close>, and the record of a question whose id is \<open>__proto__\<close> is not
  among them. On the one-question set with that id, after the right choice was confirmed in a
  test, the record read under the id is there and correct, the list of values is empty, the
  score displayed is 0 of 1, and the review item of the same screen, which reads the record by
  its key, shows the question as correct.
\<close>

theorem showResults_proto_key_score:
  "questions example_proto = [qP]
   \<and> answerOf example_proto (qid qP)
       = Some \<lparr>isCorrect = True, selectedIndex = 0, timestamp = 0, errorTag = None\<rparr>
   \<and> objectValues example_proto = []
   \<and> scoreDisplay example_proto = Some (0, 1)
   \<and> map r_isCorrect (reviewList example_proto) = [True]"
  by code_simp

subsection \<open>C6: the error tags\<close>




subsection \<open>C7: a second submission while feedback is pending\<close>

text \<open>
  C7, as the specification states it, says that a second confirmed choice on the same question
  is rejected while the feedback sequence of the first is pending. The script has no such
  check: 100 ms after the first choice, with its timeout pending, a second choice on the same
  question sets a second timeout; when the four timers have fired, each at its due time, the
  index has advanced twice, from the first question to the third, and the second question
  has no record.
\<close>

theorem double_submit_counterexample:
  "timers example_pending \<noteq> []
   \<and> currentQuestionIndex example_pending = 0
   \<and> length (timers (step (DblClickChoice 0) example_pending)) = 2
   \<and> currentQuestionIndex (run [DblClickChoice 0, Elapse 400, TimerFires, Elapse 100,
        TimerFires, Elapse 100, TimerFires, Elapse 100, TimerFires] example_pending) = 2
   \<and> answerOf (run [DblClickChoice 0, Elapse 400, TimerFires, Elapse 100,
        TimerFires, Elapse 100, TimerFires, Elapse 100, TimerFires] example_pending) ''b'' = None"
  by code_simp

text \<open>
  C7, amended. In practice mode a confirmed choice on an existing question is accepted
  whatever timers are pending: it overwrites the record, keeps the index and adds one more
  overlay timeout, due 500 ms later, behind the pending ones. Each overlay timeout that fires
  adds an advance timeout of its own, due 200 ms later, and each advance timeout that fires
  moves the index one step on unless it is at the last question. So several feedback
  sequences can be in flight, and each of them advances.
\<close>

theorem handleChoice_practice_schedules:
  assumes "nth_opt (questions s) (currentQuestionIndex s) = Some q" "mode s = Practice"
  shows "(\<exists>s'. handleChoice selected True s = Inr s'
        \<and> timers s' = timers s @ [(clock s + 500, OverlayTimeout (selected = correctIndex q) q)]
        \<and> currentQuestionIndex s' = currentQuestionIndex s
        \<and> answerOf s' (qid q) = Some \<lparr>isCorrect = (selected = correctIndex q),
             selectedIndex = selected, timestamp = clock s, errorTag = None\<rparr>)
     \<and> timers (run_task (OverlayTimeout ok q') s1) = timers s1 @ [(clock s1 + 200, Advance)]
     \<and> currentQuestionIndex (run_task Advance s2)
         = (if currentQuestionIndex s2 < int (length (questions s2)) - 1
            then currentQuestionIndex s2 + 1 else currentQuestionIndex s2)"
proof -
  let ?a = "\<lparr>isCorrect = (selected = correctIndex q), selectedIndex = selected,
      timestamp = clock s, errorTag = None\<rparr>"
  let ?s1 = "s\<lparr>heap := heap s @ [?a],
      answers := AList.update (qid q) (length (heap s)) (answers s)\<rparr>"
  have eq: "handleChoice selected True s
      = Inr (showFeedbackOverlay (selected = correctIndex q) q ?s1)"
    using assms by (simp add: handleChoice_def Let_def)
  have t: "timers (showFeedbackOverlay (selected = correctIndex q) q ?s1)
      = timers s @ [(clock s + 500, OverlayTimeout (selected = correctIndex q) q)]"
    and c: "currentQuestionIndex (showFeedbackOverlay (selected = correctIndex q) q ?s1)
      = currentQuestionIndex s"
    and a: "answerOf (showFeedbackOverlay (selected = correctIndex q) q ?s1) (qid q) = Some ?a"
    by (simp_all add: showFeedbackOverlay_def setTimeout_def answerOf_def update_conv'
        deref_append_new)
  have n: "currentQuestionIndex (run_task Advance s2)
         = (if currentQuestionIndex s2 < int (length (questions s2)) - 1
            then currentQuestionIndex s2 + 1 else currentQuestionIndex s2)"
    by (simp add: nextQuestion_def renderQuestion_keeps finishGame_keeps)
  from eq t c a n run_task_OverlayTimeout_timers [of ok q' s1] show ?thesis by blast
qed

theorem handleChoice_practice_schedules_witness:
  "nth_opt (questions example_pending) (currentQuestionIndex example_pending) = Some qA
   \<and> mode example_pending = Practice
   \<and> timers example_pending = [(500, OverlayTimeout True qA)]
   \<and> (\<exists>s'. handleChoice 0 True example_pending = Inr s'
         \<and> timers s' = [(500, OverlayTimeout True qA), (600, OverlayTimeout False qA)])"
proof -
  have h: "nth_opt (questions example_pending) (currentQuestionIndex example_pending) = Some qA"
    "mode example_pending = Practice"
    by code_simp+
  have t: "timers example_pending = [(500, OverlayTimeout True qA)]"
    "clock example_pending = 100" "correctIndex qA = 1"
    by code_simp+
  from handleChoice_practice_schedules [OF h, of 0]
  obtain s' where "handleChoice 0 True example_pending = Inr s'"
    "timers s' = timers example_pending
       @ [(clock example_pending + 500, OverlayTimeout (0 = correctIndex qA) qA)]"
    by blast
  with h t show ?thesis by simp
qed

subsection \<open>C8: starting on an empty question set\<close>

text \<open>
  C8, as the specification states it, says that \<open>startGame\<close> on an empty question set is
  rejected and no session comes to be in progress. The script checks nothing: on the loaded
  page with no questions, where the start screen is up, \<open>startGame\<close> hides the start screen
  and the quiz view is in front.
\<close>

theorem startGame_empty_counterexample:
  "questions example_empty = [] \<and> \<not> inProgress example_empty
   \<and> inProgress (startGame Practice example_empty)"
  by code_simp

text \<open>
  C8, amended. On an empty question set \<open>startGame\<close> is accepted like on any other: it sets
  the mode, resets the index and the answers, hides the start and results screens and draws
  an empty progress bar, and changes nothing else. No question and no choice button is put on
  the page then or by any later event, so no choice can be submitted.
\<close>

theorem startGame_empty:
  assumes "questions s = []"
  shows "startGame m s
       = s\<lparr>mode := m, currentQuestionIndex := 0, answers := [], startScreenHidden := True,
           resultsScreenHidden := True,
           modeDisplay := (if m = Practice then ''Practice Mode'' else ''Test Mode''),
           progressRendered := True\<rparr>
     \<and> inProgress (startGame m s)
     \<and> shownQuestion (run evs (startGame m s)) = shownQuestion s
     \<and> choiceButtons (run evs (startGame m s)) = choiceButtons s"
proof -
  have eq: "startGame m s
       = s\<lparr>mode := m, currentQuestionIndex := 0, answers := [], startScreenHidden := True,
           resultsScreenHidden := True,
           modeDisplay := (if m = Practice then ''Practice Mode'' else ''Test Mode''),
           progressRendered := True\<rparr>"
    using assms by (simp add: startGame_def renderProgressBar_def renderQuestion_empty)
  have "questions (startGame m s) = []" using assms by (simp add: startGame_keeps)
  from run_empty_buttons [OF this, of evs] eq
  have "shownQuestion (run evs (startGame m s)) = shownQuestion s"
    "choiceButtons (run evs (startGame m s)) = choiceButtons s"
    by simp_all
  with eq show ?thesis by (simp add: inProgress_def startGame_keeps)
qed

theorem startGame_empty_witness:
  "questions example_empty = []
   \<and> inProgress (startGame Test example_empty)
   \<and> shownQuestion (run [DblClickChoice 0, ClickProgress 0, TimerFires]
        (startGame Test example_empty)) = None
   \<and> choiceButtons (run [DblClickChoice 0, ClickProgress 0, TimerFires]
        (startGame Test example_empty)) = []"
proof -
  have h: "questions example_empty = []"
    and n: "shownQuestion example_empty = None" "choiceButtons example_empty = []"
    by (simp_all add: example_empty_def page_loaded_def)
  from startGame_empty [OF h, of Test "[DblClickChoice 0, ClickProgress 0, TimerFires]"]
  have a: "inProgress (startGame Test example_empty)"
    "shownQuestion (run [DblClickChoice 0, ClickProgress 0, TimerFires]
        (startGame Test example_empty)) = shownQuestion example_empty"
    "choiceButtons (run [DblClickChoice 0, ClickProgress 0, TimerFires]
        (startGame Test example_empty)) = choiceButtons example_empty"
    by blast+
  show ?thesis unfolding a(2,3) n using h a(1) by blast
qed

subsection \<open>C9: restart while feedback is pending\<close>

text \<open>
  C9, as the specification states it, says that a restart discards a pending auto-advance.
  The handler of the restart button only switches screens, and nothing in the script cancels
  a timeout: with the overlay timeout of a practice answer pending, a click on restart leaves
  it pending; after a test is started, the timeout fires at 500 ms and sets the advance, which
  fires at 700 ms and moves the new test from its first to its second question, with no
  answer given.
\<close>

theorem restart_keeps_timer_counterexample:
  "timers (run [ClickPractice, DblClickChoice 0] example_quiz) = [(500, OverlayTimeout True qA)]
   \<and> timers (run [ClickPractice, DblClickChoice 0, ClickRestart] example_quiz)
       = [(500, OverlayTimeout True qA)]
   \<and> currentQuestionIndex (run [ClickPractice, DblClickChoice 0, ClickRestart, ClickTest]
        example_quiz) = 0
   \<and> timers (run [ClickPractice, DblClickChoice 0, ClickRestart, ClickTest, Elapse 500,
        TimerFires] example_quiz) = [(700, Advance)]
   \<and> mode (run [ClickPractice, DblClickChoice 0, ClickRestart, ClickTest, Elapse 500,
        TimerFires, Elapse 200, TimerFires] example_quiz) = Test
   \<and> currentQuestionIndex (run [ClickPractice, DblClickChoice 0, ClickRestart, ClickTest,
        Elapse 500, TimerFires, Elapse 200, TimerFires] example_quiz) = 1
   \<and> answers (run [ClickPractice, DblClickChoice 0, ClickRestart, ClickTest, Elapse 500,
        TimerFires, Elapse 200, TimerFires] example_quiz) = []"
  by code_simp

text \<open>
  C9, amended. A click on restart hides the results screen, shows the start screen and
  changes nothing else; in particular every pending timer stays pending, and \<open>startGame\<close>
  keeps them too. So after a restart and a new start the same timer is due as before, and it
  fires against the state of the session that is current then.
\<close>

theorem restart_keeps_timers:
  "step ClickRestart s = s\<lparr>resultsScreenHidden := True, startScreenHidden := False\<rparr>
   \<and> timers (step ClickRestart s) = timers s
   \<and> timers (startGame m s) = timers s
   \<and> timers (run [ClickRestart, ClickPractice] s) = timers s
   \<and> timers (run [ClickRestart, ClickTest] s) = timers s
   \<and> due_timer (startGame m (step ClickRestart s)) = due_timer s"
  by (simp add: btnRestart_onclick_def startGame_keeps due_timer_def split: option.splits)

subsection \<open>C10: the shuffle does not reach the recorded answer\<close>

text \<open>
  C10. Whatever the random outcomes, \<open>renderQuestion\<close> puts one button on the page for each
  choice of the current question, each bound to the choice's index in the question, in some
  order. Take two displays of the same question from the same state with different random
  outcomes, and in each the button of the same choice \<open>c\<close>, wherever it stands: confirming
  either records the same answer, with \<open>c\<close> as selected index and correct exactly when \<open>c\<close> is
  the question's \<open>correctIndex\<close>, and leaves the same answers object, the same records and the
  same list of records to score.
\<close>

theorem shuffle_keeps_original_index:
  assumes "nth_opt (questions s) (currentQuestionIndex s) = Some q"
    and "p1 < length (choiceButtons (renderQuestion (s\<lparr>rand := rs1\<rparr>)))"
    and "p2 < length (choiceButtons (renderQuestion (s\<lparr>rand := rs2\<rparr>)))"
    and "choiceButtons (renderQuestion (s\<lparr>rand := rs1\<rparr>)) ! p1 = c"
    and "choiceButtons (renderQuestion (s\<lparr>rand := rs2\<rparr>)) ! p2 = c"
  shows "mset (choiceButtons (renderQuestion (s\<lparr>rand := rs1\<rparr>))) = mset [0..<length (choices q)]
     \<and> answerOf (step (DblClickChoice p1) (renderQuestion (s\<lparr>rand := rs1\<rparr>))) (qid q)
         = Some \<lparr>isCorrect = (int c = correctIndex q), selectedIndex = int c,
                 timestamp = clock s, errorTag = None\<rparr>
     \<and> answers (step (DblClickChoice p1) (renderQuestion (s\<lparr>rand := rs1\<rparr>)))
         = answers (step (DblClickChoice p2) (renderQuestion (s\<lparr>rand := rs2\<rparr>)))
     \<and> heap (step (DblClickChoice p1) (renderQuestion (s\<lparr>rand := rs1\<rparr>)))
         = heap (step (DblClickChoice p2) (renderQuestion (s\<lparr>rand := rs2\<rparr>)))
     \<and> objectValues (step (DblClickChoice p1) (renderQuestion (s\<lparr>rand := rs1\<rparr>)))
         = objectValues (step (DblClickChoice p2) (renderQuestion (s\<lparr>rand := rs2\<rparr>)))"
proof -
  let ?d1 = "renderQuestion (s\<lparr>rand := rs1\<rparr>)" and ?d2 = "renderQuestion (s\<lparr>rand := rs2\<rparr>)"
  have q1: "nth_opt (questions ?d1) (currentQuestionIndex ?d1) = Some q"
    and q2: "nth_opt (questions ?d2) (currentQuestionIndex ?d2) = Some q"
    using assms(1) by (simp_all add: renderQuestion_keeps)
  have "nth_opt (questions (s\<lparr>rand := rs1\<rparr>)) (currentQuestionIndex (s\<lparr>rand := rs1\<rparr>)) = Some q"
    using assms(1) by simp
  from renderQuestion_buttons [OF this]
  have M: "mset (choiceButtons ?d1) = mset [0..<length (choices q)]"
    by (simp add: shuffled_indices_mset)
  from step_DblClickChoice [OF q1 assms(2)] assms(4)
  have s1: "answers (step (DblClickChoice p1) ?d1)
        = AList.update (qid q) (length (heap s)) (answers s)"
      "heap (step (DblClickChoice p1) ?d1)
        = heap s @ [\<lparr>isCorrect = (int c = correctIndex q),
            selectedIndex = int c, timestamp = clock s, errorTag = None\<rparr>]"
    by (simp_all add: renderQuestion_keeps)
  from step_DblClickChoice [OF q2 assms(3)] assms(5)
  have s2: "answers (step (DblClickChoice p2) ?d2)
        = AList.update (qid q) (length (heap s)) (answers s)"
      "heap (step (DblClickChoice p2) ?d2)
        = heap s @ [\<lparr>isCorrect = (int c = correctIndex q),
            selectedIndex = int c, timestamp = clock s, errorTag = None\<rparr>]"
    by (simp_all add: renderQuestion_keeps)
  have A: "answerOf (step (DblClickChoice p1) ?d1) (qid q)
         = Some \<lparr>isCorrect = (int c = correctIndex q), selectedIndex = int c,
                 timestamp = clock s, errorTag = None\<rparr>"
    by (simp only: answerOf_def s1) (simp add: update_conv' deref_append_new)
  have O: "objectValues (step (DblClickChoice p1) ?d1) = objectValues (step (DblClickChoice p2) ?d2)"
    by (simp only: objectValues_def s1 s2)
  have E: "answers (step (DblClickChoice p1) ?d1) = answers (step (DblClickChoice p2) ?d2)"
    "heap (step (DblClickChoice p1) ?d1) = heap (step (DblClickChoice p2) ?d2)"
    by (simp_all only: s1 s2)
  from M A E O show ?thesis by blast
qed

theorem shuffle_keeps_original_index_witness:
  "nth_opt (questions example_test) (currentQuestionIndex example_test) = Some qA
   \<and> choiceButtons (renderQuestion (example_test\<lparr>rand := [2, 0]\<rparr>)) = [1, 0, 2]
   \<and> choiceButtons (renderQuestion (example_test\<lparr>rand := [0, 1]\<rparr>)) = [2, 1, 0]
   \<and> answerOf (step (DblClickChoice 0) (renderQuestion (example_test\<lparr>rand := [2, 0]\<rparr>))) (qid qA)
       = Some \<lparr>isCorrect = True, selectedIndex = 1, timestamp = 0, errorTag = None\<rparr>
   \<and> answers (step (DblClickChoice 0) (renderQuestion (example_test\<lparr>rand := [2, 0]\<rparr>)))
       = answers (step (DblClickChoice 1) (renderQuestion (example_test\<lparr>rand := [0, 1]\<rparr>)))
   \<and> heap (step (DblClickChoice 0) (renderQuestion (example_test\<lparr>rand := [2, 0]\<rparr>)))
       = heap (step (DblClickChoice 1) (renderQuestion (example_test\<lparr>rand := [0, 1]\<rparr>)))"
proof -
  have h: "nth_opt (questions example_test) (currentQuestionIndex example_test) = Some qA"
    by code_simp
  have b1: "choiceButtons (renderQuestion (example_test\<lparr>rand := [2, 0]\<rparr>)) = [1, 0, 2]"
    by code_simp
  have b2: "choiceButtons (renderQuestion (example_test\<lparr>rand := [0, 1]\<rparr>)) = [2, 1, 0]"
    by code_simp
  have c: "clock example_test = 0" "correctIndex qA = 1"
    by code_simp+
  from shuffle_keeps_original_index [of example_test qA 0 "[2, 0]" 1 "[0, 1]" 1, OF h] h b1 b2 c
  show ?thesis by simp
qed

end
